theory Spec2Isabelle
  imports Main
begin

section \<open>Python values, dictionaries and modules\<close>

text \<open>
  The package's \<^verbatim>\<open>__init__.py\<close> is three statements:
  \<^verbatim>\<open>
  from .nodes import *
  NODE_CLASS_MAPPINGS = {"Qwen2.5VL": QwenVL, "Qwen2.5": Qwen, "QwenVL": QwenVL, "Qwen": Qwen}
  NODE_DISPLAY_NAME_MAPPINGS = {"Qwen2.5VL": "Qwen2.5VL", "Qwen2.5": "Qwen2.5",
                                "QwenVL": "QwenVL", "Qwen": "Qwen",}
  \<close>
  The sibling module \<^verbatim>\<open>nodes\<close> is not part of the sources at hand, so it is a
  parameter of the model: whatever objects it binds are values \<open>Obj x\<close> of an arbitrary
  type \<open>'o\<close> (two occurrences of the same object are equal values).
\<close>

datatype 'o pyval =
    Obj 'o
  | Str string
  | Dict "(string \<times> 'o pyval) list"
  | Module string

text \<open>
  A Python \<^verbatim>\<open>dict\<close> with string keys, in insertion order: an association list.
  \<^verbatim>\<open>d[k] = v\<close> replaces the value of a key that is present, where it stands, and
  appends a new key at the end.
\<close>

type_synonym 'o pydict = "(string \<times> 'o pyval) list"

fun dict_setitem :: "'o pydict \<Rightarrow> string \<Rightarrow> 'o pyval \<Rightarrow> 'o pydict" where
  "dict_setitem [] k v = [(k, v)]"
| "dict_setitem ((k', v') # d) k v =
     (if k' = k then (k', v) # d else (k', v') # dict_setitem d k v)"

definition dict_get :: "'o pydict \<Rightarrow> string \<Rightarrow> 'o pyval option" where
  "dict_get d k = map_of d k"

definition dict_keys :: "'o pydict \<Rightarrow> string list" where
  "dict_keys d = map fst d"

definition dict_len :: "'o pydict \<Rightarrow> nat" where
  "dict_len d = length d"

text \<open>
  A dict display \<^verbatim>\<open>{k1: v1, ..., kn: vn}\<close> inserts its items from left to right into
  an empty dict.
\<close>

fun dict_insert_all :: "'o pydict \<Rightarrow> (string \<times> 'o pyval) list \<Rightarrow> 'o pydict" where
  "dict_insert_all d [] = d"
| "dict_insert_all d ((k, v) # items) = dict_insert_all (dict_setitem d k v) items"

definition dict_display :: "(string \<times> 'o pyval) list \<Rightarrow> 'o pydict" where
  "dict_display items = dict_insert_all [] items"

text \<open>
  A loaded module: the entries of its \<^verbatim>\<open>__dict__\<close>, in order, and its
  \<^verbatim>\<open>__all__\<close>, when it defines one. A key of \<^verbatim>\<open>__dict__\<close> and an item of
  \<^verbatim>\<open>__all__\<close> can be any object; those that are strings are \<open>Str n\<close>.
\<close>

record 'o py_module =
  mod_entries :: "('o pyval \<times> 'o pyval) list"
  mod_all :: "'o pyval list option"

text \<open>
  The attributes of the module, \<^verbatim>\<open>getattr(m, n)\<close> for a string \<open>n\<close>: the entries of
  \<^verbatim>\<open>__dict__\<close> under a string key.
\<close>

fun str_entries :: "('o pyval \<times> 'o pyval) list \<Rightarrow> 'o pydict" where
  "str_entries [] = []"
| "str_entries ((k, v) # es) =
     (case k of Str n \<Rightarrow> (n, v) # str_entries es | _ \<Rightarrow> str_entries es)"

definition mod_dict :: "'o py_module \<Rightarrow> 'o pydict" where
  "mod_dict m = str_entries (mod_entries m)"

fun str_items :: "'o pyval list \<Rightarrow> string list" where
  "str_items [] = []"
| "str_items (k # ks) = (case k of Str n \<Rightarrow> n # str_items ks | _ \<Rightarrow> str_items ks)"

text \<open>
  The exceptions a load can end with: the one the import of \<^verbatim>\<open>nodes\<close> raised
  (of an arbitrary type \<open>'x\<close>), an \<^verbatim>\<open>AttributeError\<close> or a \<^verbatim>\<open>TypeError\<close> of the
  wildcard import, a \<^verbatim>\<open>NameError\<close> of a name lookup.
\<close>

datatype 'x py_error =
    ImportFailure 'x
  | AttributeError string
  | NameError string
  | TypeError

section \<open>The wildcard import\<close>

text \<open>
  \<^verbatim>\<open>from m import *\<close> walks a sequence of names: \<^verbatim>\<open>m.__all__\<close> when it exists,
  otherwise the keys of \<^verbatim>\<open>m.__dict__\<close>, and then it skips the keys that start with an
  underscore. For each name, in this order: a name that is not a string raises
  \<^verbatim>\<open>TypeError\<close>; a key with a leading underscore is skipped; \<^verbatim>\<open>getattr(m, name)\<close>
  raises \<^verbatim>\<open>AttributeError\<close> when the module does not define the name; otherwise the
  value is stored under the name in the importing namespace. An exception stops the
  walk and leaves the names stored so far in place, so the result is the exception, if
  any, and the namespace.
\<close>

fun leading_underscore :: "string \<Rightarrow> bool" where
  "leading_underscore [] = False"
| "leading_underscore (c # cs) = (c = CHR ''_'')"

definition public_names :: "'o py_module \<Rightarrow> string list" where
  "public_names m =
     (case mod_all m of
        Some items \<Rightarrow> str_items items
      | None \<Rightarrow> filter (\<lambda>n. \<not> leading_underscore n) (dict_keys (mod_dict m)))"

fun import_all_from ::
  "'o py_module \<Rightarrow> bool \<Rightarrow> 'o pyval list \<Rightarrow> 'o pydict \<Rightarrow> 'x py_error option \<times> 'o pydict" where
  "import_all_from m skip_leading_underscores [] g = (None, g)"
| "import_all_from m skip_leading_underscores (k # ks) g =
     (case k of
        Str n \<Rightarrow>
          (if skip_leading_underscores \<and> leading_underscore n
           then import_all_from m skip_leading_underscores ks g
           else (case dict_get (mod_dict m) n of
                   None \<Rightarrow> (Some (AttributeError n), g)
                 | Some v \<Rightarrow> import_all_from m skip_leading_underscores ks (dict_setitem g n v)))
      | _ \<Rightarrow> (Some TypeError, g))"

definition import_star :: "'o py_module \<Rightarrow> 'o pydict \<Rightarrow> 'x py_error option \<times> 'o pydict" where
  "import_star m g =
     (case mod_all m of
        Some items \<Rightarrow> import_all_from m False items g
      | None \<Rightarrow> import_all_from m True (map fst (mod_entries m)) g)"

text \<open>
  The names a walk stores when nothing stops it.
\<close>

definition star_names :: "bool \<Rightarrow> 'o pyval list \<Rightarrow> string list" where
  "star_names skip_leading_underscores ks =
     filter (\<lambda>n. \<not> (skip_leading_underscores \<and> leading_underscore n)) (str_items ks)"

section \<open>The module body\<close>

text \<open>
  A name of the module body is looked up in the module's globals (neither
  \<^verbatim>\<open>QwenVL\<close> nor \<^verbatim>\<open>Qwen\<close> is a builtin); an unbound name raises
  \<^verbatim>\<open>NameError\<close>.
\<close>

definition lookup_name :: "'o pydict \<Rightarrow> string \<Rightarrow> 'x py_error + 'o pyval" where
  "lookup_name g n = (case dict_get g n of None \<Rightarrow> Inl (NameError n) | Some v \<Rightarrow> Inr v)"

text \<open>
  The display of \<^verbatim>\<open>NODE_CLASS_MAPPINGS\<close>: the four values are evaluated from left to
  right, each by a lookup of its name, then the dict is built.
\<close>

definition class_items :: "'o pyval \<Rightarrow> 'o pyval \<Rightarrow> 'o pyval \<Rightarrow> 'o pyval \<Rightarrow> (string \<times> 'o pyval) list" where
  "class_items a b c d =
     [(''Qwen2.5VL'', a), (''Qwen2.5'', b), (''QwenVL'', c), (''Qwen'', d)]"

definition node_class_mappings :: "'o pydict \<Rightarrow> 'x py_error + 'o pyval" where
  "node_class_mappings g =
     (case lookup_name g ''QwenVL'' of Inl e \<Rightarrow> Inl e | Inr a \<Rightarrow>
       (case lookup_name g ''Qwen'' of Inl e \<Rightarrow> Inl e | Inr b \<Rightarrow>
         (case lookup_name g ''QwenVL'' of Inl e \<Rightarrow> Inl e | Inr c \<Rightarrow>
           (case lookup_name g ''Qwen'' of Inl e \<Rightarrow> Inl e | Inr d \<Rightarrow>
              Inr (Dict (dict_display (class_items a b c d)))))))"

definition display_items :: "(string \<times> 'o pyval) list" where
  "display_items =
     [(''Qwen2.5VL'', Str ''Qwen2.5VL''), (''Qwen2.5'', Str ''Qwen2.5''),
      (''QwenVL'', Str ''QwenVL''), (''Qwen'', Str ''Qwen'')]"

definition node_display_name_mappings :: "'o pyval" where
  "node_display_name_mappings = Dict (dict_display display_items)"

text \<open>
  Running the body in the namespace \<open>g\<close> of the package. \<open>r\<close> is what importing
  \<^verbatim>\<open>.nodes\<close> gave: the exception it raised, or the module. The import system binds
  a submodule it has loaded as the attribute \<^verbatim>\<open>nodes\<close> of the package before the
  wildcard copies the names. The result is the exception that ended the run, if any, and
  the namespace the run left: a statement that raises leaves the bindings of the
  statements before it (and of its own walk) in place, and no later statement runs.
\<close>

definition run_init ::
  "'x + 'o py_module \<Rightarrow> 'o pydict \<Rightarrow> 'x py_error option \<times> 'o pydict" where
  "run_init r g =
     (case r of
        Inl x \<Rightarrow> (Some (ImportFailure x), g)
      | Inr m \<Rightarrow>
         (case import_star m (dict_setitem g ''nodes'' (Module ''nodes'')) of
            (Some e, g1) \<Rightarrow> (Some e, g1)
          | (None, g1) \<Rightarrow>
             (case node_class_mappings g1 of
                Inl e \<Rightarrow> (Some e, g1)
              | Inr cm \<Rightarrow>
                  (None,
                   dict_setitem (dict_setitem g1 ''NODE_CLASS_MAPPINGS'' cm)
                     ''NODE_DISPLAY_NAME_MAPPINGS'' node_display_name_mappings))))"

text \<open>
  What the importer of the package gets: the namespace of the module, or the exception.
  After a first import that raised, the import system drops the module; after a reload
  that raised, the namespace \<open>snd (run_init r g)\<close> stays in place.
\<close>

definition exec_init :: "'x + 'o py_module \<Rightarrow> 'o pydict \<Rightarrow> 'x py_error + 'o pydict" where
  "exec_init r g = (case run_init r g of (None, g') \<Rightarrow> Inr g' | (Some e, g') \<Rightarrow> Inl e)"

text \<open>
  A \<^verbatim>\<open>nodes\<close> module to run the model on: the two node classes, a helper and a
  private name; one that loads but lacks \<^verbatim>\<open>Qwen\<close>; and one whose \<^verbatim>\<open>__all__\<close>
  holds an object that is not a string.
\<close>

definition demo_nodes :: "nat py_module" where
  "demo_nodes =
     \<lparr>mod_entries = [(Str ''__name__'', Str ''nodes''), (Str ''QwenVL'', Obj 1),
                     (Str ''Qwen'', Obj 2), (Str ''tensor2pil'', Obj 3), (Str ''_cache'', Obj 4)],
      mod_all = None\<rparr>"

definition demo_loaded :: "nat pydict" where
  "demo_loaded =
     [(''__name__'', Str ''SCG_LocalVLM''), (''nodes'', Module ''nodes''),
      (''QwenVL'', Obj 1), (''Qwen'', Obj 2), (''tensor2pil'', Obj 3),
      (''NODE_CLASS_MAPPINGS'',
         Dict [(''Qwen2.5VL'', Obj 1), (''Qwen2.5'', Obj 2), (''QwenVL'', Obj 1), (''Qwen'', Obj 2)]),
      (''NODE_DISPLAY_NAME_MAPPINGS'',
         Dict [(''Qwen2.5VL'', Str ''Qwen2.5VL''), (''Qwen2.5'', Str ''Qwen2.5''),
               (''QwenVL'', Str ''QwenVL''), (''Qwen'', Str ''Qwen'')])]"

definition demo_fresh :: "nat pydict" where
  "demo_fresh = [(''__name__'', Str ''SCG_LocalVLM'')]"




section \<open>Facts about dictionaries\<close>

lemma dict_get_setitem:
  "dict_get (dict_setitem d k v) k' = (if k' = k then Some v else dict_get d k')"
  by (induction d) (auto simp: dict_get_def)

lemma dict_keys_setitem:
  "dict_keys (dict_setitem d k v) =
     (if k \<in> set (dict_keys d) then dict_keys d else dict_keys d @ [k])"
  by (induction d) (force simp: dict_keys_def)+


lemma dict_get_insert_all:
  "dict_get (dict_insert_all d items) k =
     (case map_of (rev items) k of Some v \<Rightarrow> Some v | None \<Rightarrow> dict_get d k)"
proof (induction items arbitrary: d)
  case Nil
  show ?case by simp
next
  case (Cons kv items)
  obtain k' v' where kv: "kv = (k', v')" by (cases kv)
  show ?case
    by (simp add: kv Cons.IH dict_get_setitem map_add_def split: option.splits)
qed

lemma distinct_keys_insert_all:
  "distinct (dict_keys d) \<Longrightarrow> distinct (dict_keys (dict_insert_all d items))"
proof (induction items arbitrary: d)
  case Nil
  then show ?case by simp
next
  case (Cons kv items)
  obtain k' v' where kv: "kv = (k', v')" by (cases kv)
  from Cons.prems have "distinct (dict_keys (dict_setitem d k' v'))"
    by (simp add: dict_keys_setitem)
  then show ?case by (simp add: kv Cons.IH)
qed

lemma dict_display_class_items: "dict_display (class_items a b c d) = class_items a b c d"
  by (simp add: dict_display_def class_items_def)

lemma dict_display_display_items: "dict_display display_items = display_items"
  by (simp add: dict_display_def display_items_def)

lemma set_keys_setitem: "set (dict_keys (dict_setitem d k v)) = insert k (set (dict_keys d))"
  by (auto simp: dict_keys_setitem)

section \<open>Facts about the wildcard import and the load\<close>

lemma dict_keys_str_entries: "dict_keys (str_entries es) = str_items (map fst es)"
  by (induction es) (auto simp: dict_keys_def split: pyval.splits)

lemma star_names_Nil: "star_names sk [] = []"
  by (simp add: star_names_def)

lemma star_names_skip:
  "sk \<and> leading_underscore n \<Longrightarrow> star_names sk (Str n # ks) = star_names sk ks"
  by (simp add: star_names_def)

lemma star_names_keep:
  "\<not> (sk \<and> leading_underscore n) \<Longrightarrow> star_names sk (Str n # ks) = n # star_names sk ks"
  by (simp add: star_names_def)

lemma import_all_from_step:
  assumes "import_all_from m sk (k # ks) g = (res, g1)"
  obtains
    (skipped) n where "k = Str n" "sk \<and> leading_underscore n"
      "import_all_from m sk ks g = (res, g1)"
  | (undefined) n where "k = Str n" "\<not> (sk \<and> leading_underscore n)"
      "dict_get (mod_dict m) n = None" "res = Some (AttributeError n)" "g1 = g"
  | (stored) n v where "k = Str n" "\<not> (sk \<and> leading_underscore n)"
      "dict_get (mod_dict m) n = Some v"
      "import_all_from m sk ks (dict_setitem g n v) = (res, g1)"
  | (not_str) "\<forall>n. k \<noteq> Str n" "res = Some TypeError" "g1 = g"
proof (cases k)
  case (Str n)
  show ?thesis
  proof (cases "sk \<and> leading_underscore n")
    case True
    have "import_all_from m sk ks g = (res, g1)"
      using assms Str True by simp
    with Str True show ?thesis by (rule skipped)
  next
    case False
    show ?thesis
    proof (cases "dict_get (mod_dict m) n")
      case None
      have "res = Some (AttributeError n)" and "g1 = g"
        using assms Str False None by auto
      with Str False None show ?thesis by (rule undefined)
    next
      case (Some v)
      have "import_all_from m sk ks (dict_setitem g n v) = (res, g1)"
        using assms Str False Some by auto
      with Str False Some show ?thesis by (rule stored)
    qed
  qed
next
  case (Obj x)
  then have "\<forall>n. k \<noteq> Str n" by simp
  moreover have "res = Some TypeError" and "g1 = g" using assms Obj by auto
  ultimately show ?thesis by (rule not_str)
next
  case (Dict d)
  then have "\<forall>n. k \<noteq> Str n" by simp
  moreover have "res = Some TypeError" and "g1 = g" using assms Dict by auto
  ultimately show ?thesis by (rule not_str)
next
  case (Module x)
  then have "\<forall>n. k \<noteq> Str n" by simp
  moreover have "res = Some TypeError" and "g1 = g" using assms Module by auto
  ultimately show ?thesis by (rule not_str)
qed

lemma import_all_from_get:
  "import_all_from m sk ks g = (None, g1) \<Longrightarrow>
   dict_get g1 n = (if n \<in> set (star_names sk ks) then dict_get (mod_dict m) n else dict_get g n)"
proof (induction ks arbitrary: g)
  case Nil
  then show ?case by (simp add: star_names_Nil)
next
  case (Cons k ks)
  from Cons.prems show ?case
  proof (cases rule: import_all_from_step)
    case (skipped n')
    then have names: "star_names sk (k # ks) = star_names sk ks"
      by (simp add: star_names_skip)
    from Cons.IH [OF skipped(3)] show ?thesis unfolding names .
  next
    case (stored n' v)
    then have names: "star_names sk (k # ks) = n' # star_names sk ks"
      by (simp add: star_names_keep)
    from Cons.IH [OF stored(4)] stored(3) show ?thesis
      unfolding names by (simp add: dict_get_setitem)
  qed simp_all
qed



lemma import_all_from_key_set:
  "import_all_from m sk ks g = (None, g1) \<Longrightarrow>
   set (dict_keys g1) = set (dict_keys g) \<union> set (star_names sk ks)"
proof (induction ks arbitrary: g)
  case Nil
  then show ?case by (simp add: star_names_Nil)
next
  case (Cons k ks)
  from Cons.prems show ?case
  proof (cases rule: import_all_from_step)
    case (skipped n')
    then have names: "star_names sk (k # ks) = star_names sk ks"
      by (simp add: star_names_skip)
    from Cons.IH [OF skipped(3)] show ?thesis unfolding names .
  next
    case (stored n' v)
    then have names: "star_names sk (k # ks) = n' # star_names sk ks"
      by (simp add: star_names_keep)
    from Cons.IH [OF stored(4)] show ?thesis
      unfolding names by (auto simp: set_keys_setitem)
  qed simp_all
qed

lemma import_all_from_keys:
  "import_all_from m sk ks g = (None, g1) \<Longrightarrow> set (star_names sk ks) \<subseteq> set (dict_keys g) \<Longrightarrow>
   dict_keys g1 = dict_keys g"
proof (induction ks arbitrary: g)
  case Nil
  then show ?case by simp
next
  case (Cons k ks)
  from Cons.prems(1) show ?case
  proof (cases rule: import_all_from_step)
    case (skipped n')
    then have names: "star_names sk (k # ks) = star_names sk ks"
      by (simp add: star_names_skip)
    from Cons.IH [OF skipped(3)] Cons.prems(2) show ?thesis unfolding names .
  next
    case (stored n' v)
    then have names: "star_names sk (k # ks) = n' # star_names sk ks"
      by (simp add: star_names_keep)
    from Cons.prems(2) have n': "n' \<in> set (dict_keys g)"
      and rest: "set (star_names sk ks) \<subseteq> set (dict_keys g)"
      unfolding names by simp_all
    from n' have same: "dict_keys (dict_setitem g n' v) = dict_keys g"
      by (simp add: dict_keys_setitem)
    from Cons.IH [OF stored(4)] rest same show ?thesis by simp
  qed simp_all
qed


lemma import_all_from_outcome:
  "fst (import_all_from m sk ks g :: 'x py_error option \<times> 'o pydict) =
   fst (import_all_from m sk ks h :: 'x py_error option \<times> 'o pydict)"
proof (induction ks arbitrary: g h)
  case Nil
  show ?case by simp
next
  case (Cons k ks)
  then show ?case
    by (auto split: pyval.splits option.splits)
qed

lemma import_all_from_error:
  "import_all_from m sk ks g = (Some e, g1) \<Longrightarrow>
   e = TypeError \<or> (\<exists>n. dict_get (mod_dict m) n = None \<and> e = AttributeError n)"
proof (induction ks arbitrary: g)
  case Nil
  then show ?case by simp
next
  case (Cons k ks)
  then show ?case
    by (auto split: pyval.splits option.splits if_splits)
qed

lemma import_star_walk:
  "\<exists>sk ks. (\<forall>g. (import_star m g :: 'x py_error option \<times> 'o pydict) = import_all_from m sk ks g) \<and>
      public_names m = star_names sk ks"
proof (cases "mod_all m")
  case None
  then show ?thesis
    by (intro exI [of _ True] exI [of _ "map fst (mod_entries m)"])
      (simp add: import_star_def public_names_def star_names_def mod_dict_def
        dict_keys_str_entries)
next
  case (Some items)
  then show ?thesis
    by (intro exI [of _ False] exI [of _ items])
      (simp add: import_star_def public_names_def star_names_def)
qed

lemma import_star_get:
  "import_star m h = (None, g1) \<Longrightarrow>
   dict_get g1 n = (if n \<in> set (public_names m) then dict_get (mod_dict m) n else dict_get h n)"
  using import_star_walk [of m] import_all_from_get [of m] by metis


lemma import_star_key_set:
  "import_star m h = (None, g1) \<Longrightarrow> set (dict_keys g1) = set (dict_keys h) \<union> set (public_names m)"
  using import_star_walk [of m] import_all_from_key_set [of m] by metis


lemma import_star_keys:
  "import_star m h = (None, g1) \<Longrightarrow> set (public_names m) \<subseteq> set (dict_keys h) \<Longrightarrow>
   dict_keys g1 = dict_keys h"
  using import_star_walk [of m] import_all_from_keys [of m] by metis


lemma import_star_again:
  assumes "(import_star m h :: 'x py_error option \<times> 'o pydict) = (None, g1)"
  shows "\<exists>g2. (import_star m h' :: 'x py_error option \<times> 'o pydict) = (None, g2)"
proof -
  from import_star_walk [of m] obtain sk ks where
    walk: "\<And>g. (import_star m g :: 'x py_error option \<times> 'o pydict) = import_all_from m sk ks g"
    by blast
  have "fst (import_star m h' :: 'x py_error option \<times> 'o pydict) = fst (import_star m h :: 'x py_error option \<times> 'o pydict)"
    unfolding walk by (rule import_all_from_outcome)
  with assms show ?thesis by (cases "import_star m h' :: 'x py_error option \<times> 'o pydict") simp
qed

lemma node_class_mappings_Inr:
  "node_class_mappings g = Inr cm \<longleftrightarrow>
     (\<exists>a b. dict_get g ''QwenVL'' = Some a \<and> dict_get g ''Qwen'' = Some b \<and>
            cm = Dict (class_items a b a b))"
  by (auto simp: node_class_mappings_def lookup_name_def dict_display_class_items
      split: option.splits)

lemma node_class_mappings_Inl:
  "(node_class_mappings g :: 'x py_error + 'o pyval) = Inl e \<longleftrightarrow>
     (dict_get g ''QwenVL'' = None \<and> e = NameError ''QwenVL'') \<or>
     (dict_get g ''QwenVL'' \<noteq> None \<and> dict_get g ''Qwen'' = None \<and> e = NameError ''Qwen'')"
  by (auto simp: node_class_mappings_def lookup_name_def split: option.splits)

lemma run_init_None:
  "run_init (r :: 'x + 'o py_module) g = (None, g') \<longleftrightarrow>
     (\<exists>m g1 a b. r = Inr m \<and>
        (import_star m (dict_setitem g ''nodes'' (Module ''nodes'')) :: 'x py_error option \<times> 'o pydict)
          = (None, g1) \<and>
        dict_get g1 ''QwenVL'' = Some a \<and> dict_get g1 ''Qwen'' = Some b \<and>
        g' = dict_setitem (dict_setitem g1 ''NODE_CLASS_MAPPINGS'' (Dict (class_items a b a b)))
               ''NODE_DISPLAY_NAME_MAPPINGS'' (Dict display_items))"
  by (auto simp: run_init_def node_class_mappings_Inr node_class_mappings_Inl
      node_display_name_mappings_def dict_display_display_items
      split: sum.splits prod.splits option.splits)

lemma exec_init_run: "exec_init r g = Inr g' \<longleftrightarrow> run_init r g = (None, g')"
  by (auto simp: exec_init_def split: prod.splits option.splits)

lemma exec_init_Inr:
  "exec_init (r :: 'x + 'o py_module) g = Inr g' \<longleftrightarrow>
     (\<exists>m g1 a b. r = Inr m \<and>
        (import_star m (dict_setitem g ''nodes'' (Module ''nodes'')) :: 'x py_error option \<times> 'o pydict)
          = (None, g1) \<and>
        dict_get g1 ''QwenVL'' = Some a \<and> dict_get g1 ''Qwen'' = Some b \<and>
        g' = dict_setitem (dict_setitem g1 ''NODE_CLASS_MAPPINGS'' (Dict (class_items a b a b)))
               ''NODE_DISPLAY_NAME_MAPPINGS'' (Dict display_items))"
  unfolding exec_init_run by (rule run_init_None)

lemma exec_init_class:
  assumes "exec_init r g = Inr g'"
  shows "\<exists>a b. dict_get g' ''QwenVL'' = Some a \<and> dict_get g' ''Qwen'' = Some b \<and>
           dict_get g' ''NODE_CLASS_MAPPINGS'' = Some (Dict (class_items a b a b))"
  using assms unfolding exec_init_Inr by (auto simp: dict_get_setitem)

lemma exec_init_display:
  assumes "exec_init r g = Inr g'"
  shows "dict_get g' ''NODE_DISPLAY_NAME_MAPPINGS'' = Some (Dict display_items)"
  using assms unfolding exec_init_Inr by (auto simp: dict_get_setitem)

section \<open>Runs on the example modules\<close>

lemma demo_run: "run_init (Inr demo_nodes :: unit + nat py_module) demo_fresh = (None, demo_loaded)"
  by (simp add: run_init_def import_star_def mod_dict_def demo_nodes_def
      demo_fresh_def demo_loaded_def dict_get_def node_class_mappings_def lookup_name_def
      node_display_name_mappings_def dict_display_def class_items_def display_items_def)

lemma demo_exec: "exec_init (Inr demo_nodes :: unit + nat py_module) demo_fresh = Inr demo_loaded"
  by (simp add: exec_init_def demo_run)





section \<open>The published mappings\<close>

text \<open>
  Claim C1. After a load that succeeds, the module's namespace binds both
  \<^verbatim>\<open>NODE_CLASS_MAPPINGS\<close> and \<^verbatim>\<open>NODE_DISPLAY_NAME_MAPPINGS\<close> to dicts, and each of
  the four identifiers "Qwen2.5VL", "Qwen2.5", "QwenVL" and "Qwen" is a key of both.
\<close>
theorem mappings_contain_declared_identifiers:
  assumes "exec_init r g = Inr (g' :: 'o pydict)"
  shows "\<exists>cm dm. dict_get g' ''NODE_CLASS_MAPPINGS'' = Some (Dict cm) \<and>
           dict_get g' ''NODE_DISPLAY_NAME_MAPPINGS'' = Some (Dict dm) \<and>
           (\<forall>k \<in> {''Qwen2.5VL'', ''Qwen2.5'', ''QwenVL'', ''Qwen''}.
              k \<in> set (dict_keys cm) \<and> k \<in> set (dict_keys dm))"
proof -
  from exec_init_class [OF assms] obtain a b where
    "dict_get g' ''NODE_CLASS_MAPPINGS'' = Some (Dict (class_items a b a b))" by blast
  moreover note exec_init_display [OF assms]
  moreover have "\<forall>k \<in> {''Qwen2.5VL'', ''Qwen2.5'', ''QwenVL'', ''Qwen''}.
      k \<in> set (dict_keys (class_items a b a b)) \<and>
      k \<in> set (dict_keys (display_items :: 'o pydict))"
    by (simp add: dict_keys_def class_items_def display_items_def)
  ultimately show ?thesis by blast
qed

theorem mappings_contain_declared_identifiers_witness:
  "exec_init (Inr demo_nodes :: unit + nat py_module) demo_fresh = Inr demo_loaded \<and>
   (\<exists>cm dm. dict_get demo_loaded ''NODE_CLASS_MAPPINGS'' = Some (Dict cm) \<and>
      dict_get demo_loaded ''NODE_DISPLAY_NAME_MAPPINGS'' = Some (Dict dm) \<and>
      ''Qwen2.5VL'' \<in> set (dict_keys cm) \<and> ''Qwen2.5VL'' \<in> set (dict_keys dm) \<and>
      ''Qwen2.5'' \<in> set (dict_keys cm) \<and> ''Qwen2.5'' \<in> set (dict_keys dm) \<and>
      ''QwenVL'' \<in> set (dict_keys cm) \<and> ''QwenVL'' \<in> set (dict_keys dm) \<and>
      ''Qwen'' \<in> set (dict_keys cm) \<and> ''Qwen'' \<in> set (dict_keys dm))"
  using mappings_contain_declared_identifiers [OF demo_exec] demo_exec by simp

text \<open>
  Claim C2. Each of the two mappings has exactly four entries, and its keys are the four
  declared identifiers: none is missing and there is no other key.
\<close>
theorem mappings_have_exactly_four_entries:
  assumes "exec_init r g = Inr (g' :: 'o pydict)"
  shows "\<exists>cm dm. dict_get g' ''NODE_CLASS_MAPPINGS'' = Some (Dict cm) \<and>
           dict_get g' ''NODE_DISPLAY_NAME_MAPPINGS'' = Some (Dict dm) \<and>
           dict_len cm = 4 \<and> dict_len dm = 4 \<and>
           set (dict_keys cm) = {''Qwen2.5VL'', ''Qwen2.5'', ''QwenVL'', ''Qwen''} \<and>
           set (dict_keys dm) = {''Qwen2.5VL'', ''Qwen2.5'', ''QwenVL'', ''Qwen''}"
proof -
  from exec_init_class [OF assms] obtain a b where
    "dict_get g' ''NODE_CLASS_MAPPINGS'' = Some (Dict (class_items a b a b))" by blast
  moreover note exec_init_display [OF assms]
  moreover have "dict_len (class_items a b a b) = 4"
    and "dict_len (display_items :: 'o pydict) = 4"
    and "set (dict_keys (class_items a b a b)) = {''Qwen2.5VL'', ''Qwen2.5'', ''QwenVL'', ''Qwen''}"
    and "set (dict_keys (display_items :: 'o pydict)) = {''Qwen2.5VL'', ''Qwen2.5'', ''QwenVL'', ''Qwen''}"
    by (simp_all add: dict_len_def dict_keys_def class_items_def display_items_def)
  ultimately show ?thesis by blast
qed

theorem mappings_have_exactly_four_entries_witness:
  "exec_init (Inr demo_nodes :: unit + nat py_module) demo_fresh = Inr demo_loaded \<and>
   (\<exists>cm dm. dict_get demo_loaded ''NODE_CLASS_MAPPINGS'' = Some (Dict cm) \<and>
      dict_get demo_loaded ''NODE_DISPLAY_NAME_MAPPINGS'' = Some (Dict dm) \<and>
      dict_len cm = 4 \<and> dict_len dm = 4 \<and>
      set (dict_keys cm) = {''Qwen2.5VL'', ''Qwen2.5'', ''QwenVL'', ''Qwen''} \<and>
      set (dict_keys dm) = {''Qwen2.5VL'', ''Qwen2.5'', ''QwenVL'', ''Qwen''})"
  using mappings_have_exactly_four_entries [OF demo_exec] demo_exec by simp

text \<open>
  Claim C3. In \<^verbatim>\<open>NODE_CLASS_MAPPINGS\<close> the keys "Qwen2.5VL" and "QwenVL" hold the same
  value, the object the name \<^verbatim>\<open>QwenVL\<close> is bound to, and the keys "Qwen2.5" and "Qwen"
  hold the same value, the object the name \<^verbatim>\<open>Qwen\<close> is bound to.
\<close>
theorem aliases_share_implementation:
  assumes "exec_init r g = Inr (g' :: 'o pydict)"
  shows "\<exists>cm qwenvl qwen. dict_get g' ''NODE_CLASS_MAPPINGS'' = Some (Dict cm) \<and>
           dict_get g' ''QwenVL'' = Some qwenvl \<and> dict_get g' ''Qwen'' = Some qwen \<and>
           dict_get cm ''Qwen2.5VL'' = Some qwenvl \<and> dict_get cm ''QwenVL'' = Some qwenvl \<and>
           dict_get cm ''Qwen2.5'' = Some qwen \<and> dict_get cm ''Qwen'' = Some qwen"
proof -
  from exec_init_class [OF assms] obtain a b where
    "dict_get g' ''QwenVL'' = Some a" "dict_get g' ''Qwen'' = Some b"
    "dict_get g' ''NODE_CLASS_MAPPINGS'' = Some (Dict (class_items a b a b))" by blast
  moreover have "dict_get (class_items a b a b) ''Qwen2.5VL'' = Some a"
    and "dict_get (class_items a b a b) ''QwenVL'' = Some a"
    and "dict_get (class_items a b a b) ''Qwen2.5'' = Some b"
    and "dict_get (class_items a b a b) ''Qwen'' = Some b"
    by (simp_all add: dict_get_def class_items_def)
  ultimately show ?thesis by blast
qed

theorem aliases_share_implementation_witness:
  "exec_init (Inr demo_nodes :: unit + nat py_module) demo_fresh = Inr demo_loaded \<and>
   (\<exists>cm. dict_get demo_loaded ''NODE_CLASS_MAPPINGS'' = Some (Dict cm) \<and>
      dict_get cm ''Qwen2.5VL'' = Some (Obj 1) \<and> dict_get cm ''QwenVL'' = Some (Obj 1) \<and>
      dict_get cm ''Qwen2.5'' = Some (Obj 2) \<and> dict_get cm ''Qwen'' = Some (Obj 2))"
  using aliases_share_implementation [OF demo_exec] demo_exec
  by (simp add: demo_loaded_def dict_get_def)

text \<open>
  Claim C4. For every key of \<^verbatim>\<open>NODE_DISPLAY_NAME_MAPPINGS\<close> the display name stored
  under it is the string equal to the key; in particular "Qwen2.5VL" maps to "Qwen2.5VL".
\<close>
theorem display_name_equals_key:
  assumes "exec_init r g = Inr (g' :: 'o pydict)"
  shows "\<exists>dm. dict_get g' ''NODE_DISPLAY_NAME_MAPPINGS'' = Some (Dict dm) \<and>
           (\<forall>k \<in> set (dict_keys dm). dict_get dm k = Some (Str k)) \<and>
           dict_get dm ''Qwen2.5VL'' = Some (Str ''Qwen2.5VL'')"
proof -
  have "\<forall>k \<in> set (dict_keys (display_items :: 'o pydict)).
          dict_get (display_items :: 'o pydict) k = Some (Str k)"
    and "dict_get (display_items :: 'o pydict) ''Qwen2.5VL'' = Some (Str ''Qwen2.5VL'')"
    by (simp_all add: dict_get_def dict_keys_def display_items_def)
  with exec_init_display [OF assms] show ?thesis by blast
qed

theorem display_name_equals_key_witness:
  "exec_init (Inr demo_nodes :: unit + nat py_module) demo_fresh = Inr demo_loaded \<and>
   (\<exists>dm. dict_get demo_loaded ''NODE_DISPLAY_NAME_MAPPINGS'' = Some (Dict dm) \<and>
      dict_keys dm = [''Qwen2.5VL'', ''Qwen2.5'', ''QwenVL'', ''Qwen''] \<and>
      dict_get dm ''Qwen2.5VL'' = Some (Str ''Qwen2.5VL'') \<and>
      dict_get dm ''Qwen2.5'' = Some (Str ''Qwen2.5'') \<and>
      dict_get dm ''QwenVL'' = Some (Str ''QwenVL'') \<and>
      dict_get dm ''Qwen'' = Some (Str ''Qwen''))"
  using display_name_equals_key [OF demo_exec] demo_exec
  by (simp add: demo_loaded_def dict_get_def dict_keys_def)

text \<open>
  Claim C5. The two mappings have the same set of keys, and the keys of
  \<^verbatim>\<open>NODE_CLASS_MAPPINGS\<close> are pairwise distinct.
\<close>
theorem mappings_have_same_distinct_keys:
  assumes "exec_init r g = Inr (g' :: 'o pydict)"
  shows "\<exists>cm dm. dict_get g' ''NODE_CLASS_MAPPINGS'' = Some (Dict cm) \<and>
           dict_get g' ''NODE_DISPLAY_NAME_MAPPINGS'' = Some (Dict dm) \<and>
           set (dict_keys dm) = set (dict_keys cm) \<and> distinct (dict_keys cm)"
proof -
  from exec_init_class [OF assms] obtain a b where
    "dict_get g' ''NODE_CLASS_MAPPINGS'' = Some (Dict (class_items a b a b))" by blast
  moreover note exec_init_display [OF assms]
  moreover have "set (dict_keys (display_items :: 'o pydict)) = set (dict_keys (class_items a b a b))"
    and "distinct (dict_keys (class_items a b a b))"
    by (simp_all add: dict_keys_def class_items_def display_items_def)
  ultimately show ?thesis by blast
qed

theorem mappings_have_same_distinct_keys_witness:
  "exec_init (Inr demo_nodes :: unit + nat py_module) demo_fresh = Inr demo_loaded \<and>
   (\<exists>cm dm. dict_get demo_loaded ''NODE_CLASS_MAPPINGS'' = Some (Dict cm) \<and>
      dict_get demo_loaded ''NODE_DISPLAY_NAME_MAPPINGS'' = Some (Dict dm) \<and>
      set (dict_keys dm) = set (dict_keys cm) \<and> distinct (dict_keys cm))"
  using mappings_have_same_distinct_keys [OF demo_exec] demo_exec by simp

text \<open>
  Claim C9. A dict display with a duplicated key keeps one entry for it, holding the value
  listed last; the two displays of the module list no key twice, so each is built exactly
  as it is listed, every entry surviving.
\<close>
theorem later_duplicate_wins_and_no_entry_lost:
  "dict_get (dict_display items) k = map_of (rev items) k \<and>
   distinct (dict_keys (dict_display items)) \<and>
   dict_display [(k, v1), (k, v2)] = [(k, v2)] \<and>
   distinct (map fst (class_items a b c d)) \<and>
   dict_display (class_items a b c d) = class_items a b c d \<and>
   distinct (map fst (display_items :: 'o pydict)) \<and>
   dict_display (display_items :: 'o pydict) = display_items"
proof -
  have "dict_get (dict_display items) k = map_of (rev items) k"
    using dict_get_insert_all [of "[]" items k]
    by (simp add: dict_display_def dict_get_def split: option.splits)
  moreover have "distinct (dict_keys (dict_display items))"
    unfolding dict_display_def by (rule distinct_keys_insert_all) (simp add: dict_keys_def)
  moreover have "dict_display [(k, v1), (k, v2)] = [(k, v2)]"
    by (simp add: dict_display_def)
  moreover have "distinct (map fst (class_items a b c d))"
    by (simp add: class_items_def)
  moreover have "distinct (map fst (display_items :: 'o pydict))"
    by (simp add: display_items_def)
  ultimately show ?thesis
    by (simp add: dict_display_class_items dict_display_display_items)
qed

section \<open>Reloading\<close>

text \<open>
  Claim C6. Running the module body a second time, in the namespace the first load left,
  succeeds and leaves every binding as it was: the two mappings are equal to those of the
  first load, and the namespace has the same keys (nothing accumulates).
\<close>
theorem reload_is_idempotent:
  assumes "exec_init (r :: 'x + 'o py_module) g = Inr g1"
  shows "\<exists>g2. exec_init r g1 = Inr g2 \<and>
           (\<forall>n. dict_get g2 n = dict_get g1 n) \<and> dict_keys g2 = dict_keys g1 \<and>
           dict_get g2 ''NODE_CLASS_MAPPINGS'' = dict_get g1 ''NODE_CLASS_MAPPINGS'' \<and>
           dict_get g2 ''NODE_DISPLAY_NAME_MAPPINGS'' = dict_get g1 ''NODE_DISPLAY_NAME_MAPPINGS''"
proof -
  let ?C = "''NODE_CLASS_MAPPINGS''" and ?D = "''NODE_DISPLAY_NAME_MAPPINGS''"
  let ?N = "''nodes''"
  from assms obtain m ga a b where r: "r = Inr m"
    and ga: "(import_star m (dict_setitem g ?N (Module ?N)) :: 'x py_error option \<times> 'o pydict) = (None, ga)"
    and a: "dict_get ga ''QwenVL'' = Some a" and b: "dict_get ga ''Qwen'' = Some b"
    and g1: "g1 = dict_setitem (dict_setitem ga ?C (Dict (class_items a b a b))) ?D (Dict display_items)"
    unfolding exec_init_Inr by blast
  from import_star_again [OF ga] obtain gb where
    gb: "(import_star m (dict_setitem g1 ?N (Module ?N)) :: 'x py_error option \<times> 'o pydict) = (None, gb)"
    by blast
  note ga_get = import_star_get [OF ga] and gb_get = import_star_get [OF gb]
  have g1_get: "dict_get g1 n =
      (if n = ?D then Some (Dict display_items)
       else if n = ?C then Some (Dict (class_items a b a b)) else dict_get ga n)" for n
    by (simp add: g1 dict_get_setitem)
  have same: "dict_get gb n = dict_get ga n" if "n \<noteq> ?C" "n \<noteq> ?D" for n
    using that by (simp add: gb_get ga_get g1_get dict_get_setitem)
  have a': "dict_get gb ''QwenVL'' = Some a" and b': "dict_get gb ''Qwen'' = Some b"
    using a b by (simp_all add: same)
  define g2 where
    "g2 = dict_setitem (dict_setitem gb ?C (Dict (class_items a b a b))) ?D (Dict display_items)"
  have run: "exec_init r g1 = Inr g2"
    unfolding exec_init_Inr using r gb a' b' g2_def by blast
  have get: "dict_get g2 n = dict_get g1 n" for n
    by (simp add: g2_def g1_get dict_get_setitem same)
  have "set (public_names m) \<subseteq> set (dict_keys ga)"
    by (simp add: import_star_key_set [OF ga])
  then have sub: "set (public_names m) \<subseteq> set (dict_keys (dict_setitem g1 ?N (Module ?N)))"
    by (auto simp: g1 set_keys_setitem)
  have "?N \<in> set (dict_keys ga)"
    by (simp add: import_star_key_set [OF ga] set_keys_setitem)
  then have "?N \<in> set (dict_keys g1)"
    by (simp add: g1 set_keys_setitem)
  then have "dict_keys gb = dict_keys g1"
    by (simp add: import_star_keys [OF gb sub] dict_keys_setitem)
  moreover have "?C \<in> set (dict_keys g1)" "?D \<in> set (dict_keys g1)"
    by (simp_all add: g1 set_keys_setitem)
  ultimately have keys: "dict_keys g2 = dict_keys g1"
    by (simp add: g2_def dict_keys_setitem)
  from run get keys show ?thesis by blast
qed

theorem reload_is_idempotent_witness:
  "exec_init (Inr demo_nodes :: unit + nat py_module) demo_fresh = Inr demo_loaded \<and>
   exec_init (Inr demo_nodes :: unit + nat py_module) demo_loaded = Inr demo_loaded"
proof -
  from reload_is_idempotent [OF demo_exec] obtain g2 where
    "exec_init (Inr demo_nodes :: unit + nat py_module) demo_loaded = Inr g2" by blast
  moreover have "exec_init (Inr demo_nodes :: unit + nat py_module) demo_loaded = Inr demo_loaded"
    by (simp add: exec_init_def run_init_def import_star_def mod_dict_def demo_nodes_def
      demo_loaded_def dict_get_def node_class_mappings_def lookup_name_def
      node_display_name_mappings_def dict_display_def class_items_def display_items_def)
  ultimately show ?thesis using demo_exec by simp
qed

section \<open>Failures of a load\<close>




section \<open>What a load changes\<close>






end
